theory Spec2Isabelle
  imports Main "HOL-Library.Word"
begin

section \<open>Values, storage cells and errors\<close>

text \<open>
  The module \<^verbatim>\<open>fernet_fields/fields.py\<close> is glue between Django's model fields, the
  \<^verbatim>\<open>cryptography\<close> package and \<^verbatim>\<open>hashlib\<close>. Python values are modelled by
  \<open>'v pyobj\<close>: the singleton \<^verbatim>\<open>None\<close>, the module's sentinel
  \<^verbatim>\<open>NO_VALUE = object()\<close> (an object identical to nothing else), and every other
  object. A binary storage cell is its byte content, or \<open>None\<close> for SQL NULL;
  \<^verbatim>\<open>connection.Database.Binary\<close> and \<^verbatim>\<open>bytes(value)\<close> only change the wrapper
  around that content and are the identity here.
\<close>

type_synonym bytes = "8 word list"

datatype 'v pyobj = PyNone | NO_VALUE | Obj 'v

type_synonym cell = "bytes option"

datatype error =
    ImproperlyConfigured
  | FieldError
  | InvalidToken
  | ValueError
  | IndexError
  | TypeError
  | AttributeError
  | HostError string

section \<open>Collaborators\<close>

text \<open>
  Everything the module calls but does not define is a parameter, collected in one
  record:
  \<^item> \<open>derive_fernet_key\<close> is \<^verbatim>\<open>hkdf.derive_fernet_key\<close> of the package's own
    \<^verbatim>\<open>hkdf\<close> module;
  \<^item> \<open>fernet_encrypt k r msg\<close> is \<^verbatim>\<open>Fernet(k).encrypt(msg)\<close>, where \<open>r\<close> stands
    for the timestamp and the random IV the call draws; \<open>fernet_decrypt k tok\<close> is
    \<^verbatim>\<open>Fernet(k).decrypt(tok)\<close>, with \<open>None\<close> for \<^verbatim>\<open>InvalidToken\<close>;
    \<open>valid_fernet_key k\<close> says that \<^verbatim>\<open>Fernet(k)\<close> accepts \<open>k\<close>, which it does when
    \<open>k\<close> is the url-safe base64 encoding of 32 bytes and otherwise refuses with
    \<^verbatim>\<open>ValueError\<close>;
  \<^item> \<open>sha256_digest\<close> is \<^verbatim>\<open>sha256(b).digest()\<close>;
  \<^item> \<open>force_bytes\<close> and \<open>force_text\<close> are Django's encoding helpers;
  \<^item> \<open>to_python\<close>, \<open>super_get_db_prep_save\<close>, \<open>super_get_db_prep_value\<close> and
    \<open>super_get_prep_lookup\<close> are the methods of the Django field class the
    encrypted or dual field is mixed with (\<^verbatim>\<open>models.Field\<close>, \<^verbatim>\<open>TextField\<close>,
    \<^verbatim>\<open>IntegerField\<close>, ...), reached through \<^verbatim>\<open>super()\<close> or \<^verbatim>\<open>self\<close>. They
    may raise, so they return a sum.
\<close>

record ('v, 'k, 'r) host =
  derive_fernet_key :: "'k \<Rightarrow> 'k"
  fernet_encrypt :: "'k \<Rightarrow> 'r \<Rightarrow> bytes \<Rightarrow> bytes"
  fernet_decrypt :: "'k \<Rightarrow> bytes \<Rightarrow> bytes option"
  valid_fernet_key :: "'k \<Rightarrow> bool"
  sha256_digest :: "bytes \<Rightarrow> bytes"
  force_bytes :: "'v pyobj \<Rightarrow> bytes"
  force_text :: "bytes \<Rightarrow> error + 'v pyobj"
  to_python :: "'v pyobj \<Rightarrow> error + 'v pyobj"
  super_get_db_prep_save :: "'v pyobj \<Rightarrow> error + 'v pyobj"
  super_get_db_prep_value :: "'v pyobj \<Rightarrow> error + 'v pyobj"
  super_get_prep_lookup :: "string \<Rightarrow> 'v pyobj \<Rightarrow> error + 'v pyobj"

text \<open>
  The Django settings the module reads. \<open>None\<close> for \<open>FERNET_KEYS\<close> and
  \<open>FERNET_USE_HKDF\<close> is the setting being absent (for \<open>FERNET_KEYS\<close> also the
  setting being \<^verbatim>\<open>None\<close>: the code cannot tell them apart).
\<close>

record 'k settings =
  FERNET_KEYS :: "'k list option"
  SECRET_KEY :: 'k
  FERNET_USE_HKDF :: "bool option"

section \<open>EncryptedField: keys and cipher\<close>

definition keys :: "'k settings \<Rightarrow> 'k list" where
  "keys s = (case FERNET_KEYS s of None \<Rightarrow> [SECRET_KEY s] | Some ks \<Rightarrow> ks)"

definition use_hkdf :: "'k settings \<Rightarrow> bool" where
  "use_hkdf s = (case FERNET_USE_HKDF s of None \<Rightarrow> True | Some b \<Rightarrow> b)"

definition fernet_keys :: "('v, 'k, 'r) host \<Rightarrow> 'k settings \<Rightarrow> 'k list" where
  "fernet_keys h s =
     (if use_hkdf s then map (derive_fernet_key h) (keys s) else keys s)"

text \<open>
  A cipher object is a \<^verbatim>\<open>Fernet\<close> over one key or a \<^verbatim>\<open>MultiFernet\<close> over the
  \<^verbatim>\<open>Fernet\<close> instances of a list of keys, kept as the list of their keys.
  \<^verbatim>\<open>Fernet(key)\<close> raises \<^verbatim>\<open>ValueError\<close> on a key it does not accept, so the
  comprehension \<^verbatim>\<open>[Fernet(k) for k in self.fernet_keys]\<close> stops at the first such
  key. \<^verbatim>\<open>MultiFernet([])\<close> raises \<^verbatim>\<open>ValueError\<close>; \<^verbatim>\<open>MultiFernet.encrypt\<close> uses
  its first instance; \<^verbatim>\<open>MultiFernet.decrypt\<close> tries the instances in order, passes
  over \<^verbatim>\<open>InvalidToken\<close> and raises it when the list is exhausted.
\<close>

datatype 'k cipher = Fernet 'k | MultiFernet "'k list"

definition MultiFernet_init :: "'k list \<Rightarrow> error + 'k cipher" where
  "MultiFernet_init ks = (if ks = [] then Inl ValueError else Inr (MultiFernet ks))"

definition Fernet_init :: "('v, 'k, 'r) host \<Rightarrow> 'k \<Rightarrow> error + 'k cipher" where
  "Fernet_init h key = (if valid_fernet_key h key then Inr (Fernet key) else Inl ValueError)"

fun Fernet_each :: "('v, 'k, 'r) host \<Rightarrow> 'k list \<Rightarrow> error + 'k list" where
  "Fernet_each h [] = Inr []"
| "Fernet_each h (k # ks) =
     (case Fernet_init h k of
        Inl e \<Rightarrow> Inl e
      | Inr f \<Rightarrow> (case Fernet_each h ks of Inl e \<Rightarrow> Inl e | Inr fs \<Rightarrow> Inr (k # fs)))"

definition fernet :: "('v, 'k, 'r) host \<Rightarrow> 'k settings \<Rightarrow> error + 'k cipher" where
  "fernet h s =
     (let ks = fernet_keys h s in
      if length ks = 1
      then (case ks of [] \<Rightarrow> Inl IndexError | k # _ \<Rightarrow> Fernet_init h k)
      else (case Fernet_each h ks of Inl e \<Rightarrow> Inl e | Inr fs \<Rightarrow> MultiFernet_init fs))"

fun MultiFernet_decrypt :: "('v, 'k, 'r) host \<Rightarrow> 'k list \<Rightarrow> bytes \<Rightarrow> error + bytes" where
  "MultiFernet_decrypt h [] tok = Inl InvalidToken"
| "MultiFernet_decrypt h (k # ks) tok =
     (case fernet_decrypt h k tok of
        Some msg \<Rightarrow> Inr msg
      | None \<Rightarrow> MultiFernet_decrypt h ks tok)"

fun encrypt :: "('v, 'k, 'r) host \<Rightarrow> 'k cipher \<Rightarrow> 'r \<Rightarrow> bytes \<Rightarrow> error + bytes" where
  "encrypt h (Fernet k) r msg = Inr (fernet_encrypt h k r msg)"
| "encrypt h (MultiFernet []) r msg = Inl IndexError"
| "encrypt h (MultiFernet (k # ks)) r msg = Inr (fernet_encrypt h k r msg)"

fun decrypt :: "('v, 'k, 'r) host \<Rightarrow> 'k cipher \<Rightarrow> bytes \<Rightarrow> error + bytes" where
  "decrypt h (Fernet k) tok =
     (case fernet_decrypt h k tok of Some msg \<Rightarrow> Inr msg | None \<Rightarrow> Inl InvalidToken)"
| "decrypt h (MultiFernet ks) tok = MultiFernet_decrypt h ks tok"

section \<open>EncryptedField: storage and lookups\<close>

definition EncryptedField_get_db_prep_save ::
  "('v, 'k, 'r) host \<Rightarrow> 'k settings \<Rightarrow> 'v pyobj \<Rightarrow> 'r \<Rightarrow> error + cell" where
  "EncryptedField_get_db_prep_save h s value r =
     (case super_get_db_prep_save h value of
        Inl e \<Rightarrow> Inl e
      | Inr v \<Rightarrow>
          if v \<noteq> PyNone
          then (case fernet h s of
                  Inl e \<Rightarrow> Inl e
                | Inr c \<Rightarrow>
                    (case encrypt h c r (force_bytes h v) of
                       Inl e \<Rightarrow> Inl e
                     | Inr retval \<Rightarrow> Inr (Some retval)))
          else Inr None)"

definition EncryptedField_get_prep_lookup ::
  "string \<Rightarrow> 'v pyobj \<Rightarrow> error + 'v pyobj" where
  "EncryptedField_get_prep_lookup lookup_type value = Inl FieldError"

definition EncryptedField_from_db_value ::
  "('v, 'k, 'r) host \<Rightarrow> 'k settings \<Rightarrow> cell \<Rightarrow> error + 'v pyobj" where
  "EncryptedField_from_db_value h s value =
     (case value of
        None \<Rightarrow> Inr PyNone
      | Some tok \<Rightarrow>
          (case fernet h s of
             Inl e \<Rightarrow> Inl e
           | Inr c \<Rightarrow>
               (case decrypt h c tok of
                  Inl e \<Rightarrow> Inl e
                | Inr msg \<Rightarrow>
                    (case force_text h msg of
                       Inl e \<Rightarrow> Inl e
                     | Inr txt \<Rightarrow> to_python h txt))))"

section \<open>Field construction\<close>

text \<open>
  The constructors take \<^verbatim>\<open>*args, **kwargs\<close> and hand both to
  \<^verbatim>\<open>models.Field.__init__\<close>. Of the keyword arguments the model keeps the options
  the module or the claims speak of: \<open>None\<close> is an option that is not passed, and
  \<^verbatim>\<open>kwargs.get('primary_key')\<close> is truthy exactly for \<open>Some True\<close>. A positional
  argument is \<^verbatim>\<open>None\<close>, a boolean or a string, with Python's truth value.
\<close>

record field_kwargs =
  kw_primary_key :: "bool option"
  kw_unique :: "bool option"
  kw_db_index :: "bool option"
  kw_null :: "bool option"
  kw_editable :: "bool option"

definition truthy :: "bool option \<Rightarrow> bool" where
  "truthy b = (b = Some True)"

datatype pyarg = ArgNone | ArgBool bool | ArgStr string

fun truth :: "pyarg \<Rightarrow> bool" where
  "truth ArgNone = False"
| "truth (ArgBool b) = b"
| "truth (ArgStr s) = (s \<noteq> [])"

text \<open>
  What \<^verbatim>\<open>models.Field.__init__\<close> records of a field: its options, its place in
  declaration order (\<open>creation_counter\<close>, drawn from the class-wide counter
  \<^verbatim>\<open>Field.creation_counter\<close>, which starts at 0 and is then incremented), and,
  once the field is attached to a model class, its attribute name.

  \<^verbatim>\<open>models.Field.__init__\<close> has 22 parameters, which positional arguments fill in
  order: \<^verbatim>\<open>verbose_name, name, primary_key, max_length, unique, blank, null,
  db_index, rel, default, editable, ...\<close>. Python raises \<^verbatim>\<open>TypeError\<close> when there
  are more positional arguments than parameters and when a parameter is given both
  by position and by keyword. The parameters beyond \<open>editable\<close> are not followed;
  among them is \<^verbatim>\<open>auto_created\<close>, the flag of the fields Django creates itself,
  so every field here is one declared by user code.
\<close>

record field =
  creation_counter :: int
  primary_key :: bool
  unique_opt :: bool
  db_index :: bool
  null_opt :: bool
  editable :: bool
  attname :: "string option"

definition bind_param :: "pyarg list \<Rightarrow> nat \<Rightarrow> bool option \<Rightarrow> bool \<Rightarrow> error + bool" where
  "bind_param args i kw dflt =
     (if i < length args
      then (case kw of None \<Rightarrow> Inr (truth (args ! i)) | Some b \<Rightarrow> Inl TypeError)
      else (case kw of None \<Rightarrow> Inr dflt | Some b \<Rightarrow> Inr b))"

definition Field_init :: "pyarg list \<Rightarrow> field_kwargs \<Rightarrow> nat \<Rightarrow> error + field \<times> nat" where
  "Field_init args kwargs counter =
     (if 22 < length args then Inl TypeError
      else
        case bind_param args 2 (kw_primary_key kwargs) False of
          Inl e \<Rightarrow> Inl e
        | Inr pk \<Rightarrow>
        case bind_param args 4 (kw_unique kwargs) False of
          Inl e \<Rightarrow> Inl e
        | Inr un \<Rightarrow>
        case bind_param args 6 (kw_null kwargs) False of
          Inl e \<Rightarrow> Inl e
        | Inr nu \<Rightarrow>
        case bind_param args 7 (kw_db_index kwargs) False of
          Inl e \<Rightarrow> Inl e
        | Inr ix \<Rightarrow>
        case bind_param args 10 (kw_editable kwargs) True of
          Inl e \<Rightarrow> Inl e
        | Inr ed \<Rightarrow>
            Inr (\<lparr>creation_counter = int counter, primary_key = pk, unique_opt = un,
                  db_index = ix, null_opt = nu, editable = ed, attname = None\<rparr>,
                 Suc counter))"

definition EncryptedField_init ::
  "pyarg list \<Rightarrow> field_kwargs \<Rightarrow> nat \<Rightarrow> error + field \<times> nat" where
  "EncryptedField_init args kwargs counter =
     (if truthy (kw_primary_key kwargs) then Inl ImproperlyConfigured
      else if truthy (kw_unique kwargs) then Inl ImproperlyConfigured
      else if truthy (kw_db_index kwargs) then Inl ImproperlyConfigured
      else Field_init args kwargs counter)"

section \<open>DualField\<close>

record DualFieldDescriptor =
  encrypted_field_attname :: string

type_synonym 'v model_instance = "string \<rightharpoonup> 'v pyobj"

definition getattr :: "'v model_instance \<Rightarrow> string \<Rightarrow> error + 'v pyobj" where
  "getattr obj a = (case obj a of None \<Rightarrow> Inl AttributeError | Some v \<Rightarrow> Inr v)"

definition setattr :: "'v model_instance \<Rightarrow> string \<Rightarrow> 'v pyobj \<Rightarrow> 'v model_instance" where
  "setattr obj a v = obj(a \<mapsto> v)"

definition descriptor_get :: "DualFieldDescriptor \<Rightarrow> 'v model_instance \<Rightarrow> error + 'v pyobj" where
  "descriptor_get d obj = getattr obj (encrypted_field_attname d)"

definition descriptor_set ::
  "DualFieldDescriptor \<Rightarrow> 'v model_instance \<Rightarrow> 'v pyobj \<Rightarrow> 'v model_instance" where
  "descriptor_set d obj value =
     (if value \<noteq> NO_VALUE then setattr obj (encrypted_field_attname d) value else obj)"

record dual_field = field +
  encrypted_field :: field

definition DualField_init ::
  "pyarg list \<Rightarrow> field_kwargs \<Rightarrow> nat \<Rightarrow> error + dual_field \<times> nat" where
  "DualField_init args kwargs counter =
     (if truthy (kw_primary_key kwargs) then Inl ImproperlyConfigured
      else
        case Field_init args kwargs counter of
          Inl e \<Rightarrow> Inl e
        | Inr (f, counter1) \<Rightarrow>
            (case EncryptedField_init []
                    \<lparr>kw_primary_key = None, kw_unique = None, kw_db_index = None,
                     kw_null = Some (null_opt f), kw_editable = Some False\<rparr> counter1 of
               Inl e \<Rightarrow> Inl e
             | Inr (ef, counter2) \<Rightarrow>
                 Inr (field.extend f
                        \<lparr>encrypted_field = ef\<lparr>creation_counter := - 1\<rparr>\<rparr>,
                      counter2)))"

text \<open>
  A model class, as far as the module touches it: the fields of
  \<^verbatim>\<open>cls._meta.local_fields\<close>, which Django keeps ordered by creation counter and
  walks in that order when \<^verbatim>\<open>Model.__init__\<close> populates an instance, and the
  descriptors set as class attributes. \<^verbatim>\<open>Options.add_field\<close> inserts a field at
  \<^verbatim>\<open>bisect(local_fields, field)\<close>, where fields compare by creation counter: behind
  every field whose counter is not greater. On the ordered list that is the position
  the scan below finds.
\<close>

record model_class =
  local_fields :: "field list"
  descriptors :: "string \<rightharpoonup> DualFieldDescriptor"

fun add_field :: "field \<Rightarrow> field list \<Rightarrow> field list" where
  "add_field f [] = [f]"
| "add_field f (g # gs) =
     (if creation_counter f < creation_counter g then f # g # gs else g # add_field f gs)"

definition Field_contribute_to_class :: "field \<Rightarrow> model_class \<Rightarrow> string \<Rightarrow> field \<times> model_class" where
  "Field_contribute_to_class f cls name =
     (let f' = f\<lparr>attname := Some name\<rparr>
      in (f', cls\<lparr>local_fields := add_field f' (local_fields cls)\<rparr>))"

definition DualField_contribute_to_class ::
  "dual_field \<Rightarrow> model_class \<Rightarrow> string \<Rightarrow> error + dual_field \<times> model_class" where
  "DualField_contribute_to_class self cls name =
     (let (f1, cls1) = Field_contribute_to_class (field.truncate self) cls name;
          encrypted_field_name = name @ ''_encrypted'';
          (ef, cls2) = Field_contribute_to_class (encrypted_field self) cls1 encrypted_field_name
      in case attname ef of
           None \<Rightarrow> Inl AttributeError
         | Some a \<Rightarrow>
             (let descriptor = \<lparr>encrypted_field_attname = a\<rparr>
              in Inr (field.extend f1 \<lparr>encrypted_field = ef\<rparr>,
                      cls2\<lparr>descriptors := (descriptors cls2)(name \<mapsto> descriptor)\<rparr>)))"

definition hash_value :: "('v, 'k, 'r) host \<Rightarrow> 'v pyobj \<Rightarrow> bytes" where
  "hash_value h val = sha256_digest h (force_bytes h val)"

definition DualField_get_db_prep_value ::
  "('v, 'k, 'r) host \<Rightarrow> 'v pyobj \<Rightarrow> error + cell" where
  "DualField_get_db_prep_value h value =
     (case super_get_db_prep_value h value of
        Inl e \<Rightarrow> Inl e
      | Inr v \<Rightarrow> if v \<noteq> PyNone then Inr (Some (hash_value h v)) else Inr None)"

definition value_from_object :: "field \<Rightarrow> 'v model_instance \<Rightarrow> error + 'v pyobj" where
  "value_from_object f obj =
     (case attname f of None \<Rightarrow> Inl AttributeError | Some a \<Rightarrow> getattr obj a)"

definition DualField_pre_save :: "dual_field \<Rightarrow> 'v model_instance \<Rightarrow> error + 'v pyobj" where
  "DualField_pre_save self instance = value_from_object (encrypted_field self) instance"

definition DualField_get_prep_lookup ::
  "('v, 'k, 'r) host \<Rightarrow> string \<Rightarrow> 'v pyobj \<Rightarrow> error + 'v pyobj" where
  "DualField_get_prep_lookup h lookup_type value =
     (if lookup_type \<notin> {''exact'', ''in'', ''isnull''} then Inl FieldError
      else super_get_prep_lookup h lookup_type value)"

definition DualField_from_db_value :: "cell \<Rightarrow> 'v pyobj" where
  "DualField_from_db_value value = NO_VALUE"

section \<open>Saving and loading a dual attribute\<close>

text \<open>
  Django writes a field's cell as
  \<^verbatim>\<open>field.get_db_prep_save(field.pre_save(instance, add), connection)\<close>. The dual
  field inherits \<^verbatim>\<open>get_db_prep_save\<close> from \<^verbatim>\<open>models.Field\<close>, where it is
  \<^verbatim>\<open>self.get_db_prep_value(value, connection, prepared=False)\<close>.
\<close>

definition save_hash_cell ::
  "('v, 'k, 'r) host \<Rightarrow> dual_field \<Rightarrow> 'v model_instance \<Rightarrow> error + cell" where
  "save_hash_cell h self obj =
     (case DualField_pre_save self obj of
        Inl e \<Rightarrow> Inl e
      | Inr value \<Rightarrow> DualField_get_db_prep_value h value)"

text \<open>
  On load Django converts each fetched cell with its field's \<^verbatim>\<open>from_db_value\<close> and
  then sets the attributes in field order: \<^verbatim>\<open>setattr(obj, field.attname, val)\<close>.
  The hidden field's name is an ordinary instance attribute; the dual field's
  name is a class attribute holding the descriptor \<open>d\<close>, so setting it calls
  \<^verbatim>\<open>d.__set__\<close>.
\<close>

definition load_dual ::
  "('v, 'k, 'r) host \<Rightarrow> 'k settings \<Rightarrow> dual_field \<Rightarrow> DualFieldDescriptor \<Rightarrow>
     'v model_instance \<Rightarrow> cell \<Rightarrow> cell \<Rightarrow> error + 'v model_instance" where
  "load_dual h s self d obj encrypted_cell hash_cell =
     (case EncryptedField_from_db_value h s encrypted_cell of
        Inl e \<Rightarrow> Inl e
      | Inr v \<Rightarrow>
          (case attname (encrypted_field self) of
             None \<Rightarrow> Inl AttributeError
           | Some a \<Rightarrow>
               Inr (descriptor_set d (setattr obj a v) (DualField_from_db_value hash_cell))))"

section \<open>Contracts of the collaborators\<close>

text \<open>
  What the theorems below ask of the collaborators, each where it is needed.
  \<open>fernet_sound\<close>: a token decrypts under the key that made it. \<open>fernet_authentic\<close>:
  no other key authenticates it (the idealised reading of the token's HMAC).
  \<open>decoders_keep_InvalidToken\<close>: \<^verbatim>\<open>force_text\<close> and \<^verbatim>\<open>to_python\<close> raise errors
  of their own, never the cipher's \<^verbatim>\<open>InvalidToken\<close>.
  \<open>sha256_length\<close>: digests have 32 bytes. \<open>supported\<close>: the field class mixed in
  prepares the value \<open>v\<close> without error, keeps \<^verbatim>\<open>None\<close> apart from every other
  value, and reads the text of the prepared value's bytes back as \<open>v\<close>.
\<close>

definition fernet_sound :: "('v, 'k, 'r) host \<Rightarrow> bool" where
  "fernet_sound h = (\<forall>k r msg. fernet_decrypt h k (fernet_encrypt h k r msg) = Some msg)"

definition fernet_authentic :: "('v, 'k, 'r) host \<Rightarrow> bool" where
  "fernet_authentic h =
     (\<forall>k k' r msg. k' \<noteq> k \<longrightarrow> fernet_decrypt h k' (fernet_encrypt h k r msg) = None)"

definition decoders_keep_InvalidToken :: "('v, 'k, 'r) host \<Rightarrow> bool" where
  "decoders_keep_InvalidToken h =
     ((\<forall>b. force_text h b \<noteq> Inl InvalidToken) \<and> (\<forall>v. to_python h v \<noteq> Inl InvalidToken))"

definition sha256_length :: "('v, 'k, 'r) host \<Rightarrow> bool" where
  "sha256_length h = (\<forall>b. length (sha256_digest h b) = 32)"

definition supported :: "('v, 'k, 'r) host \<Rightarrow> 'v pyobj \<Rightarrow> bool" where
  "supported h v =
     (case super_get_db_prep_save h v of
        Inl e \<Rightarrow> False
      | Inr p \<Rightarrow>
          if v = PyNone then p = PyNone
          else p \<noteq> PyNone \<and>
               (case force_text h (force_bytes h p) of
                  Inl e \<Rightarrow> False
                | Inr txt \<Rightarrow> to_python h txt = Inr v))"

text \<open>
  A small instance of the collaborators, for evaluating the definitions on concrete
  inputs: keys and the drawn randomness are single bytes, every key but 0 is
  accepted, a token is the key, the randomness and the message in a row, the digest is the input cut or zero-padded
  to 32 bytes, values are byte strings and the field class mixed in is
  \<^verbatim>\<open>models.Field\<close>, which prepares and reads values unchanged.
\<close>

definition sample_host :: "(bytes, 8 word, 8 word) host" where
  "sample_host =
     \<lparr>derive_fernet_key = (\<lambda>k. k + 100),
      fernet_encrypt = (\<lambda>k r msg. k # r # msg),
      fernet_decrypt =
        (\<lambda>k tok. case tok of
                     k' # r # msg \<Rightarrow> if k' = k then Some msg else None
                   | _ \<Rightarrow> None),
      valid_fernet_key = (\<lambda>k. k \<noteq> 0),
      sha256_digest = (\<lambda>b. take 32 (b @ replicate 32 0)),
      force_bytes = (\<lambda>v. case v of Obj b \<Rightarrow> b | _ \<Rightarrow> []),
      force_text = (\<lambda>b. Inr (Obj b)),
      to_python = (\<lambda>v. Inr v),
      super_get_db_prep_save = (\<lambda>v. Inr v),
      super_get_db_prep_value = (\<lambda>v. Inr v),
      super_get_prep_lookup = (\<lambda>lookup_type v. Inr v)\<rparr>"

definition sample_settings :: "8 word list option \<Rightarrow> bool option \<Rightarrow> 8 word settings" where
  "sample_settings ks hkdf =
     \<lparr>FERNET_KEYS = ks, SECRET_KEY = 7, FERNET_USE_HKDF = hkdf\<rparr>"

definition no_kwargs :: field_kwargs where
  "no_kwargs =
     \<lparr>kw_primary_key = None, kw_unique = None, kw_db_index = None,
      kw_null = None, kw_editable = None\<rparr>"

definition empty_class :: model_class where
  "empty_class = \<lparr>local_fields = [], descriptors = Map.empty\<rparr>"

section \<open>Helper lemmas\<close>

lemma keys_absent: "FERNET_KEYS s = None \<Longrightarrow> keys s = [SECRET_KEY s]"
  by (simp add: keys_def)

lemma fernet_keys_length: "length (fernet_keys h s) = length (keys s)"
  by (simp add: fernet_keys_def)

lemma fernet_keys_empty_iff: "fernet_keys h s = [] \<longleftrightarrow> keys s = []"
  by (simp add: fernet_keys_def)

lemma keys_nonempty: "FERNET_KEYS s \<noteq> Some [] \<Longrightarrow> keys s \<noteq> []"
  by (cases "FERNET_KEYS s") (simp_all add: keys_def)

lemma Fernet_each_cases:
  "Fernet_each h ks =
     (if \<forall>k \<in> set ks. valid_fernet_key h k then Inr ks else Inl ValueError)"
  by (induction ks) (simp_all add: Fernet_init_def)

lemma fernet_cases:
  "fernet h s =
     (case fernet_keys h s of
        [] \<Rightarrow> Inl ValueError
      | [k] \<Rightarrow> if valid_fernet_key h k then Inr (Fernet k) else Inl ValueError
      | k # k' # ks \<Rightarrow>
          if \<forall>x \<in> set (k # k' # ks). valid_fernet_key h x
          then Inr (MultiFernet (k # k' # ks)) else Inl ValueError)"
  by (simp add: fernet_def MultiFernet_init_def Fernet_init_def Fernet_each_cases Let_def
      split: list.splits)

lemma fernet_error:
  "fernet h s = Inl e \<Longrightarrow>
   e = ValueError \<and> (fernet_keys h s = [] \<or> (\<exists>k \<in> set (fernet_keys h s). \<not> valid_fernet_key h k))"
  by (auto simp add: fernet_cases split: list.splits if_splits)

lemma fernet_Inr:
  "fernet_keys h s \<noteq> [] \<Longrightarrow> \<forall>k \<in> set (fernet_keys h s). valid_fernet_key h k \<Longrightarrow>
   \<exists>c. fernet h s = Inr c"
  by (cases "fernet_keys h s" rule: remdups_adj.cases) (simp_all add: fernet_cases)

lemma Field_init_counter:
  "Field_init args kwargs counter = Inr (f, counter') \<Longrightarrow>
   creation_counter f = int counter \<and> attname f = None \<and> counter' = Suc counter"
  by (auto simp add: Field_init_def split: if_splits sum.splits)

lemma Field_init_keywords:
  "length args \<le> 2 \<Longrightarrow>
   Field_init args kwargs counter =
     Inr (\<lparr>creation_counter = int counter,
           primary_key = (kw_primary_key kwargs = Some True),
           unique_opt = (kw_unique kwargs = Some True),
           db_index = (kw_db_index kwargs = Some True),
           null_opt = (kw_null kwargs = Some True),
           editable = (kw_editable kwargs \<noteq> Some False),
           attname = None\<rparr>,
          Suc counter)"
  by (auto simp add: Field_init_def bind_param_def split: option.splits)

lemma hidden_field_init:
  "EncryptedField_init []
     \<lparr>kw_primary_key = None, kw_unique = None, kw_db_index = None,
      kw_null = Some b, kw_editable = Some False\<rparr> counter =
   Inr (\<lparr>creation_counter = int counter, primary_key = False, unique_opt = False,
         db_index = False, null_opt = b, editable = False, attname = None\<rparr>,
        Suc counter)"
  by (simp add: EncryptedField_init_def Field_init_def bind_param_def truthy_def)

lemma DualField_init_Inr:
  "kw_primary_key kwargs \<noteq> Some True \<Longrightarrow>
   Field_init args kwargs counter = Inr (f, counter1) \<Longrightarrow>
   DualField_init args kwargs counter =
     Inr (field.extend f
            \<lparr>encrypted_field =
               \<lparr>creation_counter = - 1, primary_key = False, unique_opt = False,
                db_index = False, null_opt = null_opt f, editable = False,
                attname = None\<rparr>\<rparr>,
          Suc counter1)"
  by (simp add: DualField_init_def hidden_field_init truthy_def)

lemma DualField_init_Inl:
  "kw_primary_key kwargs = Some True \<Longrightarrow>
   DualField_init args kwargs counter = Inl ImproperlyConfigured"
  by (simp add: DualField_init_def truthy_def)

lemma DualField_init_counters:
  assumes "DualField_init args kwargs counter = Inr (self, counter')"
  shows "creation_counter (encrypted_field self) = - 1"
    and "creation_counter self = int counter"
    and "attname (encrypted_field self) = None"
proof -
  have pk: "kw_primary_key kwargs \<noteq> Some True"
    using assms by (auto simp add: DualField_init_Inl)
  obtain f counter1 where f: "Field_init args kwargs counter = Inr (f, counter1)"
    using assms pk by (auto simp add: DualField_init_def truthy_def split: sum.splits)
  from DualField_init_Inr [OF pk f] assms Field_init_counter [OF f]
  show "creation_counter (encrypted_field self) = - 1"
    and "creation_counter self = int counter"
    and "attname (encrypted_field self) = None"
    by (auto simp add: field.defs)
qed

lemma DualField_init_keywords:
  "kw_primary_key kwargs \<noteq> Some True \<Longrightarrow> length args \<le> 2 \<Longrightarrow>
   \<exists>self. DualField_init args kwargs counter = Inr (self, counter + 2)"
  using DualField_init_Inr [OF _ Field_init_keywords] by fastforce

lemma add_field_split:
  "\<exists>pre post. gs = pre @ post \<and> add_field f gs = pre @ f # post"
proof (induction gs)
  case Nil
  then show ?case by simp
next
  case (Cons g gs)
  then obtain pre post where *: "gs = pre @ post" "add_field f gs = pre @ f # post"
    by blast
  show ?case
  proof (cases "creation_counter f < creation_counter g")
    case True
    then have "g # gs = [] @ (g # gs) \<and> add_field f (g # gs) = [] @ f # (g # gs)"
      by simp
    then show ?thesis by blast
  next
    case False
    then have "g # gs = (g # pre) @ post \<and> add_field f (g # gs) = (g # pre) @ f # post"
      using * by simp
    then show ?thesis by blast
  qed
qed

lemma add_field_before:
  "creation_counter e < creation_counter f \<Longrightarrow>
   \<exists>pre' mid. add_field e (pre @ f # post) = pre' @ e # mid @ f # post"
proof (induction pre)
  case Nil
  then have "add_field e ([] @ f # post) = [] @ e # [] @ f # post" by simp
  then show ?case by blast
next
  case (Cons g pre)
  then obtain pre' mid where *: "add_field e (pre @ f # post) = pre' @ e # mid @ f # post"
    by blast
  show ?case
  proof (cases "creation_counter e < creation_counter g")
    case True
    then have "add_field e ((g # pre) @ f # post) = [] @ e # (g # pre) @ f # post"
      by simp
    then show ?thesis by blast
  next
    case False
    then have "add_field e ((g # pre) @ f # post) = (g # pre') @ e # mid @ f # post"
      using * by simp
    then show ?thesis by blast
  qed
qed

lemma contribute_to_class_Inr:
  "DualField_contribute_to_class self cls name =
     Inr (field.extend ((field.truncate self)\<lparr>attname := Some name\<rparr>)
            \<lparr>encrypted_field = (encrypted_field self)\<lparr>attname := Some (name @ ''_encrypted'')\<rparr>\<rparr>,
          \<lparr>local_fields =
             add_field ((encrypted_field self)\<lparr>attname := Some (name @ ''_encrypted'')\<rparr>)
               (add_field ((field.truncate self)\<lparr>attname := Some name\<rparr>) (local_fields cls)),
           descriptors =
             (descriptors cls)(name \<mapsto> \<lparr>encrypted_field_attname = name @ ''_encrypted''\<rparr>)\<rparr>)"
  by (simp add: DualField_contribute_to_class_def Field_contribute_to_class_def Let_def)

lemma contribute_to_class_bound:
  assumes "DualField_contribute_to_class self0 cls0 name = Inr (self, cls)"
  shows "attname (encrypted_field self) = Some (name @ ''_encrypted'')"
    and "descriptors cls name = Some \<lparr>encrypted_field_attname = name @ ''_encrypted''\<rparr>"
    and "creation_counter (encrypted_field self) = creation_counter (encrypted_field self0)"
    and "creation_counter self = creation_counter self0"
  using assms unfolding contribute_to_class_Inr
  by (auto simp add: field.defs)

lemma contribute_to_class_order:
  assumes "creation_counter (encrypted_field self0) < creation_counter self0"
  shows "\<exists>self cls pre mid post.
           DualField_contribute_to_class self0 cls0 name = Inr (self, cls) \<and>
           local_fields cls = pre @ encrypted_field self # mid @ field.truncate self # post"
proof -
  let ?f = "(field.truncate self0)\<lparr>attname := Some name\<rparr>"
  let ?e = "(encrypted_field self0)\<lparr>attname := Some (name @ ''_encrypted'')\<rparr>"
  obtain p q where "add_field ?f (local_fields cls0) = p @ ?f # q"
    using add_field_split [of "local_fields cls0" ?f] by blast
  moreover have "creation_counter ?e < creation_counter ?f"
    using assms by (simp add: field.defs)
  ultimately obtain pre mid where
    "add_field ?e (add_field ?f (local_fields cls0)) = pre @ ?e # mid @ ?f # q"
    using add_field_before [of ?e ?f p q] by auto
  then show ?thesis
    unfolding contribute_to_class_Inr by (auto simp add: field.defs)
qed

lemma MultiFernet_decrypt_find:
  "MultiFernet_decrypt h ks tok =
     (case find (\<lambda>k. fernet_decrypt h k tok \<noteq> None) ks of
        None \<Rightarrow> Inl InvalidToken
      | Some k \<Rightarrow>
          (case fernet_decrypt h k tok of Some msg \<Rightarrow> Inr msg | None \<Rightarrow> Inl InvalidToken))"
  by (induction ks) (auto split: option.splits)

lemma MultiFernet_decrypt_InvalidToken:
  "MultiFernet_decrypt h ks tok = Inl InvalidToken \<longleftrightarrow>
     (\<forall>k \<in> set ks. fernet_decrypt h k tok = None)"
  by (induction ks) (auto split: option.splits)

lemma MultiFernet_decrypt_result:
  "MultiFernet_decrypt h ks tok = Inl InvalidToken \<or> (\<exists>msg. MultiFernet_decrypt h ks tok = Inr msg)"
  by (induction ks) (auto split: option.splits)

lemma fernet_Inr_cases:
  "fernet h s = Inr c \<Longrightarrow>
   (\<exists>k. fernet_keys h s = [k] \<and> c = Fernet k) \<or>
   (\<exists>k k' ks. fernet_keys h s = k # k' # ks \<and> c = MultiFernet (k # k' # ks))"
  by (auto simp add: fernet_cases split: list.splits if_splits)

lemma decrypt_fernet:
  "fernet h s = Inr c \<Longrightarrow> decrypt h c tok = MultiFernet_decrypt h (fernet_keys h s) tok"
  by (drule fernet_Inr_cases) (auto split: option.splits)

lemma encrypt_fernet:
  "fernet h s = Inr c \<Longrightarrow>
   \<exists>k ks. fernet_keys h s = k # ks \<and> encrypt h c r msg = Inr (fernet_encrypt h k r msg)"
  by (drule fernet_Inr_cases) auto

lemma MultiFernet_decrypt_member:
  "fernet_sound h \<Longrightarrow> k \<in> set ks \<Longrightarrow>
   \<exists>m. MultiFernet_decrypt h ks (fernet_encrypt h k r msg) = Inr m"
  using MultiFernet_decrypt_InvalidToken [of h ks "fernet_encrypt h k r msg"]
    MultiFernet_decrypt_result [of h ks "fernet_encrypt h k r msg"]
  by (auto simp add: fernet_sound_def)

lemma MultiFernet_decrypt_exact:
  "fernet_sound h \<Longrightarrow> fernet_authentic h \<Longrightarrow> k \<in> set ks \<Longrightarrow>
   MultiFernet_decrypt h ks (fernet_encrypt h k r msg) = Inr msg"
proof (induction ks)
  case Nil
  then show ?case by simp
next
  case (Cons a ks)
  show ?case
  proof (cases "a = k")
    case True
    with Cons.prems(1) show ?thesis by (simp add: fernet_sound_def)
  next
    case False
    with Cons.prems(2) have "fernet_decrypt h a (fernet_encrypt h k r msg) = None"
      by (simp add: fernet_authentic_def)
    with Cons False show ?thesis by simp
  qed
qed

lemma MultiFernet_decrypt_absent:
  "fernet_authentic h \<Longrightarrow> k \<notin> set ks \<Longrightarrow>
   MultiFernet_decrypt h ks (fernet_encrypt h k r msg) = Inl InvalidToken"
proof -
  assume a: "fernet_authentic h" and n: "k \<notin> set ks"
  have "fernet_decrypt h k' (fernet_encrypt h k r msg) = None" if "k' \<in> set ks" for k'
  proof -
    from that n have "k' \<noteq> k" by auto
    with a show ?thesis by (simp add: fernet_authentic_def)
  qed
  then show ?thesis by (simp add: MultiFernet_decrypt_InvalidToken)
qed

lemma MultiFernet_decrypt_first:
  "fernet_sound h \<Longrightarrow> MultiFernet_decrypt h (k # ks) (fernet_encrypt h k r msg) = Inr msg"
  by (simp add: fernet_sound_def)

lemma sample_host_sound: "fernet_sound sample_host"
  by (simp add: fernet_sound_def sample_host_def)

lemma sample_host_authentic: "fernet_authentic sample_host"
  by (simp add: fernet_authentic_def sample_host_def)

lemma sample_host_sha256: "sha256_length sample_host"
  by (auto simp add: sha256_length_def sample_host_def min_def)

lemma fernet_round_trip:
  assumes "fernet_sound h" and "fernet h s = Inr c"
  shows "\<exists>tok. encrypt h c r msg = Inr tok \<and> decrypt h c tok = Inr msg"
proof -
  obtain k ks where k: "fernet_keys h s = k # ks"
    and e: "encrypt h c r msg = Inr (fernet_encrypt h k r msg)"
    using encrypt_fernet [OF assms(2)] by blast
  have "decrypt h c (fernet_encrypt h k r msg) = Inr msg"
    using decrypt_fernet [OF assms(2)] k MultiFernet_decrypt_first [OF assms(1)] by simp
  with e show ?thesis by simp
qed

lemma get_db_prep_save_None:
  "super_get_db_prep_save h value = Inr PyNone \<Longrightarrow>
   EncryptedField_get_db_prep_save h s value r = Inr None"
  by (simp add: EncryptedField_get_db_prep_save_def)

lemma from_db_value_None: "EncryptedField_from_db_value h s None = Inr PyNone"
  by (simp add: EncryptedField_from_db_value_def)

lemma supported_PyNone: "supported h PyNone \<Longrightarrow> super_get_db_prep_save h PyNone = Inr PyNone"
  by (auto simp add: supported_def split: sum.splits)

lemma supported_value:
  assumes "supported h v" and "v \<noteq> PyNone"
  obtains p u where "super_get_db_prep_save h v = Inr p" and "p \<noteq> PyNone"
    and "force_text h (force_bytes h p) = Inr u" and "to_python h u = Inr v"
  using assms by (auto simp add: supported_def split: sum.splits)

lemma encrypted_round_trip:
  assumes sound: "fernet_sound h" and ne: "FERNET_KEYS s \<noteq> Some []"
    and valid: "\<forall>k \<in> set (fernet_keys h s). valid_fernet_key h k"
    and sup: "supported h v"
  shows "\<exists>cell. EncryptedField_get_db_prep_save h s v r = Inr cell \<and>
           (cell = None \<longleftrightarrow> v = PyNone) \<and>
           EncryptedField_from_db_value h s cell = Inr v"
proof (cases "v = PyNone")
  case True
  with sup have "EncryptedField_get_db_prep_save h s v r = Inr None"
    by (simp add: supported_PyNone get_db_prep_save_None)
  with True show ?thesis by (simp add: from_db_value_None)
next
  case False
  from sup False obtain p u where p: "super_get_db_prep_save h v = Inr p" "p \<noteq> PyNone"
    and t: "force_text h (force_bytes h p) = Inr u" "to_python h u = Inr v"
    by (rule supported_value)
  have "fernet_keys h s \<noteq> []"
    using keys_nonempty [OF ne] by (simp add: fernet_keys_empty_iff)
  then obtain c where c: "fernet h s = Inr c"
    using fernet_Inr valid by blast
  obtain tok where tok: "encrypt h c r (force_bytes h p) = Inr tok"
    "decrypt h c tok = Inr (force_bytes h p)"
    using fernet_round_trip [OF sound c] by blast
  have "EncryptedField_get_db_prep_save h s v r = Inr (Some tok)"
    using p c tok by (simp add: EncryptedField_get_db_prep_save_def)
  moreover have "EncryptedField_from_db_value h s (Some tok) = Inr v"
    using c tok t by (simp add: EncryptedField_from_db_value_def)
  ultimately show ?thesis using False by simp
qed

lemma sample_host_fields:
  "super_get_db_prep_save sample_host v = Inr v"
  "super_get_db_prep_value sample_host v = Inr v"
  "force_bytes sample_host (Obj b) = b"
  "fernet_encrypt sample_host k x m = k # x # m"
  "sha256_digest sample_host b = take 32 (b @ replicate 32 0)"
  "valid_fernet_key sample_host k \<longleftrightarrow> k \<noteq> 0"
  by (simp_all add: sample_host_def)

lemma sample_host_supported: "v \<noteq> NO_VALUE \<Longrightarrow> supported sample_host v"
  by (cases v) (simp_all add: supported_def sample_host_def)

lemma contribute_to_class_total:
  "\<exists>self cls. DualField_contribute_to_class self0 cls0 name = Inr (self, cls)"
  by (simp add: contribute_to_class_Inr)

lemma bound_descriptor:
  assumes "DualField_contribute_to_class self0 cls0 name = Inr (self, cls)"
    and "descriptors cls name = Some d"
  shows "encrypted_field_attname d = name @ ''_encrypted''"
  using contribute_to_class_bound(2) [OF assms(1)] assms(2) by auto

lemma pre_save_bound:
  assumes "DualField_contribute_to_class self0 cls0 name = Inr (self, cls)"
  shows "DualField_pre_save self obj = getattr obj (name @ ''_encrypted'')"
  using contribute_to_class_bound(1) [OF assms]
  by (simp add: DualField_pre_save_def value_from_object_def)

lemma getattr_setattr: "getattr (setattr obj a v) a = Inr v"
  by (simp add: getattr_def setattr_def)

lemma descriptor_set_last:
  "v \<noteq> NO_VALUE \<Longrightarrow>
   getattr (foldl (descriptor_set d) obj (vs @ [v])) (encrypted_field_attname d) = Inr v"
  by (simp add: descriptor_set_def getattr_setattr)

lemma get_db_prep_value_cases:
  "super_get_db_prep_value h v = Inr p \<Longrightarrow>
   DualField_get_db_prep_value h v =
     Inr (if p = PyNone then None else Some (sha256_digest h (force_bytes h p)))"
  by (simp add: DualField_get_db_prep_value_def hash_value_def)

lemma get_db_prep_value_length:
  "sha256_length h \<Longrightarrow> DualField_get_db_prep_value h v = Inr (Some digest) \<Longrightarrow>
   length digest = 32"
  by (auto simp add: DualField_get_db_prep_value_def hash_value_def sha256_length_def
      split: sum.splits if_splits)

lemma save_hash_cell_length:
  "sha256_length h \<Longrightarrow> save_hash_cell h self obj = Inr (Some digest) \<Longrightarrow> length digest = 32"
  by (auto simp add: save_hash_cell_def get_db_prep_value_length split: sum.splits)

lemma load_dual_bound:
  assumes "DualField_contribute_to_class self0 cls0 name = Inr (self, cls)"
    and "descriptors cls name = Some d"
    and "EncryptedField_from_db_value h s encrypted_cell = Inr v"
  shows "load_dual h s self d obj encrypted_cell hash_cell =
           Inr (setattr obj (name @ ''_encrypted'') v)"
  using contribute_to_class_bound(1) [OF assms(1)] assms(3)
  by (simp add: load_dual_def descriptor_set_def DualField_from_db_value_def)

lemma from_db_value_fernet:
  "fernet h s = Inr c \<Longrightarrow>
   EncryptedField_from_db_value h s (Some tok) =
     (case MultiFernet_decrypt h (fernet_keys h s) tok of
        Inl e \<Rightarrow> Inl e
      | Inr msg \<Rightarrow> (case force_text h msg of Inl e \<Rightarrow> Inl e | Inr u \<Rightarrow> to_python h u))"
  by (simp add: EncryptedField_from_db_value_def decrypt_fernet)

lemma from_db_value_find:
  "fernet h s = Inr c \<Longrightarrow>
   EncryptedField_from_db_value h s (Some tok) =
     (case find (\<lambda>k. fernet_decrypt h k tok \<noteq> None) (fernet_keys h s) of
        None \<Rightarrow> Inl InvalidToken
      | Some k \<Rightarrow>
          (case fernet_decrypt h k tok of
             None \<Rightarrow> Inl InvalidToken
           | Some m \<Rightarrow> (case force_text h m of Inl e \<Rightarrow> Inl e | Inr u \<Rightarrow> to_python h u)))"
  by (simp add: from_db_value_fernet MultiFernet_decrypt_find split: option.splits)

lemma from_db_value_none_authenticates:
  "fernet h s = Inr c \<Longrightarrow> \<forall>k \<in> set (fernet_keys h s). fernet_decrypt h k tok = None \<Longrightarrow>
   EncryptedField_from_db_value h s (Some tok) = Inl InvalidToken"
  using MultiFernet_decrypt_InvalidToken [of h "fernet_keys h s" tok]
  by (simp add: from_db_value_fernet)

lemma from_db_value_InvalidToken:
  assumes "fernet h s = Inr c" and "decoders_keep_InvalidToken h"
    and "EncryptedField_from_db_value h s (Some tok) = Inl InvalidToken"
  shows "\<forall>k \<in> set (fernet_keys h s). fernet_decrypt h k tok = None"
proof -
  have "MultiFernet_decrypt h (fernet_keys h s) tok = Inl InvalidToken"
    using assms MultiFernet_decrypt_result [of h "fernet_keys h s" tok]
    by (auto simp add: from_db_value_fernet decoders_keep_InvalidToken_def split: sum.splits)
  then show ?thesis by (simp add: MultiFernet_decrypt_InvalidToken)
qed

lemma get_db_prep_save_fernet:
  assumes "fernet h s = Inr c" and "super_get_db_prep_save h v = Inr p" and "p \<noteq> PyNone"
  shows "\<exists>k ks. fernet_keys h s = k # ks \<and>
           EncryptedField_get_db_prep_save h s v r =
             Inr (Some (fernet_encrypt h k r (force_bytes h p)))"
  using encrypt_fernet [OF assms(1), of r "force_bytes h p"] assms
  by (auto simp add: EncryptedField_get_db_prep_save_def)

lemma sample_host_decoders: "decoders_keep_InvalidToken sample_host"
  by (simp add: decoders_keep_InvalidToken_def sample_host_def)

section \<open>Claims\<close>

text \<open>
  C10. When \<open>FERNET_KEYS\<close> is absent the key list is the one-element list holding
  \<open>SECRET_KEY\<close>. When \<open>FERNET_KEYS\<close> is absent or non-empty, the key list and the
  list of keys the cipher is built from are non-empty, and building the cipher never
  fails on the access to the first key: it can fail only with the \<open>ValueError\<close> of
  \<^verbatim>\<open>Fernet(key)\<close> refusing a key, and does not fail when every key is accepted.
\<close>

theorem C10_key_list_nonempty:
  "(FERNET_KEYS s = None \<longrightarrow> keys s = [SECRET_KEY s]) \<and>
   (FERNET_KEYS s \<noteq> Some [] \<longrightarrow>
      keys s \<noteq> [] \<and> fernet_keys h s \<noteq> [] \<and>
      fernet h s \<noteq> Inl IndexError \<and>
      (\<forall>e. fernet h s = Inl e \<longrightarrow>
         e = ValueError \<and> (\<exists>k \<in> set (fernet_keys h s). \<not> valid_fernet_key h k)) \<and>
      ((\<forall>k \<in> set (fernet_keys h s). valid_fernet_key h k) \<longrightarrow>
         (\<exists>c. fernet h s = Inr c)))"
proof (intro conjI impI allI)
  assume "FERNET_KEYS s = None"
  then show "keys s = [SECRET_KEY s]" by (rule keys_absent)
next
  assume pre: "FERNET_KEYS s \<noteq> Some []"
  then show ne: "keys s \<noteq> []" by (rule keys_nonempty)
  then show fne: "fernet_keys h s \<noteq> []" by (simp add: fernet_keys_empty_iff)
  show "fernet h s \<noteq> Inl IndexError"
    using fernet_error [of h s IndexError] by auto
  show "e = ValueError" if "fernet h s = Inl e" for e
    using fernet_error [OF that] by simp
  show "\<exists>k \<in> set (fernet_keys h s). \<not> valid_fernet_key h k" if "fernet h s = Inl e" for e
    using fernet_error [OF that] fne by simp
  show "\<exists>c. fernet h s = Inr c" if "\<forall>k \<in> set (fernet_keys h s). valid_fernet_key h k"
    using fernet_Inr [OF fne that] .
qed

theorem C10_key_list_nonempty_witness:
  "FERNET_KEYS (sample_settings None None) = None \<and>
   keys (sample_settings None None) = [7] \<and>
   fernet sample_host (sample_settings None None) = Inr (Fernet 107) \<and>
   FERNET_KEYS (sample_settings (Some [1, 2]) (Some False)) \<noteq> Some [] \<and>
   fernet_keys sample_host (sample_settings (Some [1, 2]) (Some False)) = [1, 2] \<and>
   valid_fernet_key sample_host 1 \<and> valid_fernet_key sample_host 2 \<and>
   fernet sample_host (sample_settings (Some [1, 2]) (Some False)) = Inr (MultiFernet [1, 2]) \<and>
   FERNET_KEYS (sample_settings (Some [0]) (Some False)) \<noteq> Some [] \<and>
   \<not> valid_fernet_key sample_host 0 \<and>
   fernet sample_host (sample_settings (Some [0]) (Some False)) = Inl ValueError"
  using C10_key_list_nonempty [of "sample_settings None None" sample_host]
    C10_key_list_nonempty [of "sample_settings (Some [1, 2]) (Some False)" sample_host]
    C10_key_list_nonempty [of "sample_settings (Some [0]) (Some False)" sample_host]
  by (simp add: sample_settings_def sample_host_def fernet_cases fernet_keys_def keys_def
      use_hkdf_def)

text \<open>
  C8. With \<open>FERNET_USE_HKDF\<close> absent or true, the cipher's keys are the configured
  secrets passed through \<open>derive_fernet_key\<close>, one for one and in the configured
  order. With the flag false they are the configured secrets unchanged.
\<close>

theorem C8_key_derivation:
  "(FERNET_USE_HKDF s = None \<or> FERNET_USE_HKDF s = Some True \<longrightarrow>
      fernet_keys h s = map (derive_fernet_key h) (keys s) \<and>
      length (fernet_keys h s) = length (keys s) \<and>
      (\<forall>i < length (keys s). fernet_keys h s ! i = derive_fernet_key h (keys s ! i))) \<and>
   (FERNET_USE_HKDF s = Some False \<longrightarrow> fernet_keys h s = keys s)"
  by (auto simp add: fernet_keys_def use_hkdf_def)

theorem C8_key_derivation_witness:
  "FERNET_USE_HKDF (sample_settings (Some [1, 2]) None) = None \<and>
   fernet_keys sample_host (sample_settings (Some [1, 2]) None) = [101, 102] \<and>
   FERNET_USE_HKDF (sample_settings (Some [1, 2]) (Some True)) = Some True \<and>
   fernet_keys sample_host (sample_settings (Some [1, 2]) (Some True)) = [101, 102] \<and>
   FERNET_USE_HKDF (sample_settings (Some [1, 2]) (Some False)) = Some False \<and>
   fernet_keys sample_host (sample_settings (Some [1, 2]) (Some False)) = [1, 2]"
  using C8_key_derivation [of "sample_settings (Some [1, 2]) None" sample_host]
    C8_key_derivation [of "sample_settings (Some [1, 2]) (Some True)" sample_host]
    C8_key_derivation [of "sample_settings (Some [1, 2]) (Some False)" sample_host]
  by (simp add: sample_settings_def sample_host_def keys_def)

text \<open>
  C7. Constructing an encrypted field with \<open>primary_key\<close> passed as a true keyword
  raises \<open>ImproperlyConfigured\<close>, as the claim says. Passed by position, the same
  option is not seen by the checks, which read \<^verbatim>\<open>kwargs\<close> only:
  \<^verbatim>\<open>EncryptedField('verbose', 'nm', True)\<close> is constructed, as a primary key.
\<close>

theorem C7_positional_primary_key:
  "EncryptedField_init [] (no_kwargs\<lparr>kw_primary_key := Some True\<rparr>) 0 =
     Inl ImproperlyConfigured \<and>
   EncryptedField_init [ArgStr ''verbose'', ArgStr ''nm'', ArgBool True] no_kwargs 0 =
     Inr (\<lparr>creation_counter = 0, primary_key = True, unique_opt = False, db_index = False,
           null_opt = False, editable = True, attname = None\<rparr>, 1)"
  by (simp add: EncryptedField_init_def Field_init_def bind_param_def truthy_def no_kwargs_def)

text \<open>
  C5. Lookup preparation on an encrypted field raises \<open>FieldError\<close> for every
  lookup type. On a dual field every lookup type other than \<open>exact\<close>, \<open>in\<close> and
  \<open>isnull\<close> raises \<open>FieldError\<close>, and these three are handed unchanged to the
  field class mixed in; when that class raises no \<open>FieldError\<close> on them, the dual
  field raises it exactly for the other lookup types.
\<close>

theorem C5_lookup_types:
  "EncryptedField_get_prep_lookup lookup_type value = Inl FieldError \<and>
   (lookup_type \<notin> {''exact'', ''in'', ''isnull''} \<longrightarrow>
      DualField_get_prep_lookup h lookup_type value = Inl FieldError) \<and>
   (lookup_type \<in> {''exact'', ''in'', ''isnull''} \<longrightarrow>
      DualField_get_prep_lookup h lookup_type value = super_get_prep_lookup h lookup_type value) \<and>
   ((\<forall>l \<in> {''exact'', ''in'', ''isnull''}. \<forall>v. super_get_prep_lookup h l v \<noteq> Inl FieldError) \<longrightarrow>
      (DualField_get_prep_lookup h lookup_type value = Inl FieldError \<longleftrightarrow>
         lookup_type \<notin> {''exact'', ''in'', ''isnull''}))"
  by (simp add: EncryptedField_get_prep_lookup_def DualField_get_prep_lookup_def)

theorem C5_lookup_types_witness:
  "EncryptedField_get_prep_lookup ''exact'' (Obj [1::8 word]) = Inl FieldError \<and>
   DualField_get_prep_lookup sample_host ''gt'' (Obj [1]) = Inl FieldError \<and>
   DualField_get_prep_lookup sample_host ''exact'' (Obj [1]) = Inr (Obj [1]) \<and>
   DualField_get_prep_lookup sample_host ''in'' (Obj [1]) = Inr (Obj [1]) \<and>
   DualField_get_prep_lookup sample_host ''isnull'' (Obj [1]) = Inr (Obj [1]) \<and>
   DualField_get_prep_lookup sample_host ''contains'' (Obj [1]) = Inl FieldError"
  using C5_lookup_types [of "''exact''" "Obj [1::8 word]" sample_host]
    C5_lookup_types [of "''gt''" "Obj [1::8 word]" sample_host]
    C5_lookup_types [of "''in''" "Obj [1::8 word]" sample_host]
    C5_lookup_types [of "''isnull''" "Obj [1::8 word]" sample_host]
    C5_lookup_types [of "''contains''" "Obj [1::8 word]" sample_host]
  by (simp add: sample_host_def)

text \<open>
  C6, as the code has it. Declaring a dual field with \<open>unique\<close> or \<open>db_index\<close> true
  does not fail: when \<open>primary_key\<close> is not passed as a true keyword and
  \<^verbatim>\<open>models.Field.__init__\<close> accepts the arguments, the dual field is constructed
  with the options \<^verbatim>\<open>models.Field.__init__\<close> recorded (for keyword options, the
  ones passed), and its hidden encrypted field has none of \<open>primary_key\<close>,
  \<open>unique\<close> and \<open>db_index\<close>.
\<close>

theorem C6_dual_field_options:
  "(kw_primary_key kwargs \<noteq> Some True \<and> Field_init args kwargs counter = Inr (f, counter1) \<longrightarrow>
      (\<exists>self. DualField_init args kwargs counter = Inr (self, Suc counter1) \<and>
         unique_opt self = unique_opt f \<and>
         db_index self = db_index f \<and>
         \<not> primary_key (encrypted_field self) \<and>
         \<not> unique_opt (encrypted_field self) \<and>
         \<not> db_index (encrypted_field self))) \<and>
   (kw_primary_key kwargs \<noteq> Some True \<and> length args \<le> 2 \<longrightarrow>
      (\<exists>self. DualField_init args kwargs counter = Inr (self, counter + 2) \<and>
         unique_opt self = (kw_unique kwargs = Some True) \<and>
         db_index self = (kw_db_index kwargs = Some True) \<and>
         \<not> primary_key (encrypted_field self) \<and>
         \<not> unique_opt (encrypted_field self) \<and>
         \<not> db_index (encrypted_field self)))"
proof (intro conjI impI)
  assume a: "kw_primary_key kwargs \<noteq> Some True \<and> Field_init args kwargs counter = Inr (f, counter1)"
  then show "\<exists>self. DualField_init args kwargs counter = Inr (self, Suc counter1) \<and>
      unique_opt self = unique_opt f \<and> db_index self = db_index f \<and>
      \<not> primary_key (encrypted_field self) \<and>
      \<not> unique_opt (encrypted_field self) \<and>
      \<not> db_index (encrypted_field self)"
    by (simp add: DualField_init_Inr field.defs)
next
  assume a: "kw_primary_key kwargs \<noteq> Some True \<and> length args \<le> 2"
  then show "\<exists>self. DualField_init args kwargs counter = Inr (self, counter + 2) \<and>
      unique_opt self = (kw_unique kwargs = Some True) \<and>
      db_index self = (kw_db_index kwargs = Some True) \<and>
      \<not> primary_key (encrypted_field self) \<and>
      \<not> unique_opt (encrypted_field self) \<and>
      \<not> db_index (encrypted_field self)"
    using DualField_init_Inr [OF _ Field_init_keywords, of kwargs args counter]
    by (simp add: field.defs)
qed

theorem C6_dual_field_options_witness:
  "kw_primary_key (no_kwargs\<lparr>kw_unique := Some True\<rparr>) \<noteq> Some True \<and>
   Field_init [] (no_kwargs\<lparr>kw_unique := Some True\<rparr>) 0 =
     Inr (\<lparr>creation_counter = 0, primary_key = False, unique_opt = True, db_index = False,
           null_opt = False, editable = True, attname = None\<rparr>, 1) \<and>
   (\<exists>self. DualField_init [] (no_kwargs\<lparr>kw_unique := Some True\<rparr>) 0 = Inr (self, 2) \<and>
      unique_opt self \<and> \<not> db_index self \<and> \<not> unique_opt (encrypted_field self)) \<and>
   length [ArgStr ''hash''] \<le> 2 \<and>
   (\<exists>self. DualField_init [ArgStr ''hash''] (no_kwargs\<lparr>kw_db_index := Some True\<rparr>) 0 =
        Inr (self, 2) \<and>
      db_index self \<and> \<not> unique_opt self \<and> \<not> db_index (encrypted_field self))"
proof -
  let ?f = "\<lparr>creation_counter = 0, primary_key = False, unique_opt = True, db_index = False,
             null_opt = False, editable = True, attname = None\<rparr>"
  have fi: "Field_init [] (no_kwargs\<lparr>kw_unique := Some True\<rparr>) 0 = Inr (?f, 1)"
    by (simp add: Field_init_keywords no_kwargs_def)
  from C6_dual_field_options [of "no_kwargs\<lparr>kw_unique := Some True\<rparr>" "[]" 0 ?f 1] fi
  have u: "\<exists>self. DualField_init [] (no_kwargs\<lparr>kw_unique := Some True\<rparr>) 0 = Inr (self, 2) \<and>
      unique_opt self \<and> \<not> db_index self \<and> \<not> unique_opt (encrypted_field self)"
    by (auto simp add: no_kwargs_def numeral_2_eq_2)
  from C6_dual_field_options
    [of "no_kwargs\<lparr>kw_db_index := Some True\<rparr>" "[ArgStr ''hash'']" 0 ?f 1]
  have "\<exists>self. DualField_init [ArgStr ''hash''] (no_kwargs\<lparr>kw_db_index := Some True\<rparr>) 0 =
        Inr (self, 2) \<and>
      db_index self \<and> \<not> unique_opt self \<and> \<not> db_index (encrypted_field self)"
    by (auto simp add: no_kwargs_def numeral_2_eq_2)
  with u fi show ?thesis by (simp add: no_kwargs_def)
qed

text \<open>
  C6 as stated fails: a dual field declared with \<open>unique\<close> and \<open>db_index\<close> true is
  constructed without error.
\<close>

theorem C6_unique_index_accepted_counterexample:
  "DualField_init [] (no_kwargs\<lparr>kw_unique := Some True, kw_db_index := Some True\<rparr>) 0 =
     Inr (\<lparr>creation_counter = 0, primary_key = False, unique_opt = True, db_index = True,
           null_opt = False, editable = True, attname = None,
           encrypted_field =
             \<lparr>creation_counter = - 1, primary_key = False, unique_opt = False,
              db_index = False, null_opt = False, editable = False, attname = None\<rparr>\<rparr>,
          2)"
  by (simp add: DualField_init_def EncryptedField_init_def Field_init_def bind_param_def
      truthy_def no_kwargs_def field.defs)

text \<open>
  C9, as the code has it. The hidden encrypted field of every constructed dual field
  has creation counter \<open>-1\<close>. That is strictly lower than the counter of the dual
  field itself and of every field constructed with a counter drawn from
  \<^verbatim>\<open>Field.creation_counter\<close>, and equal to the counter of every other dual field's
  hidden encrypted field. Once the dual field is attached to a model class, its
  hidden field stands before it in the class's field list, the order in which model
  initialisation populates the attributes.
\<close>

theorem C9_creation_counter:
  assumes "DualField_init args kwargs counter = Inr (self0, counter')"
  shows "creation_counter (encrypted_field self0) = - 1 \<and>
         creation_counter (encrypted_field self0) < creation_counter self0 \<and>
         (\<forall>a kw n f n'. Field_init a kw n = Inr (f, n') \<longrightarrow>
            creation_counter (encrypted_field self0) < creation_counter f) \<and>
         (\<forall>a kw n other n'. DualField_init a kw n = Inr (other, n') \<longrightarrow>
            creation_counter (encrypted_field other) = creation_counter (encrypted_field self0)) \<and>
         (\<forall>cls0 name. \<exists>self cls pre mid post.
            DualField_contribute_to_class self0 cls0 name = Inr (self, cls) \<and>
            local_fields cls = pre @ encrypted_field self # mid @ field.truncate self # post)"
proof -
  have c: "creation_counter (encrypted_field self0) = - 1"
    and d: "creation_counter self0 = int counter"
    using DualField_init_counters [OF assms] by simp_all
  have lt: "creation_counter (encrypted_field self0) < creation_counter self0"
    using c d by simp
  have "creation_counter (encrypted_field self0) < creation_counter f"
    if "Field_init a kw n = Inr (f, n')" for a kw n f n'
    using c Field_init_counter [OF that] by simp
  moreover have "creation_counter (encrypted_field other) = creation_counter (encrypted_field self0)"
    if "DualField_init a kw n = Inr (other, n')" for a kw n other n'
    using DualField_init_counters(1) [OF that] c by simp
  ultimately show ?thesis
    using c lt contribute_to_class_order [OF lt] by blast
qed

theorem C9_creation_counter_witness:
  "(\<exists>self0. DualField_init [] no_kwargs 5 = Inr (self0, 7) \<and>
      creation_counter (encrypted_field self0) = - 1 \<and>
      creation_counter self0 = 5 \<and>
      (\<exists>self cls pre mid post.
         DualField_contribute_to_class self0 empty_class ''email'' = Inr (self, cls) \<and>
         local_fields cls = pre @ encrypted_field self # mid @ field.truncate self # post))"
proof -
  obtain self0 where *: "DualField_init [] no_kwargs 5 = Inr (self0, 7)"
    using DualField_init_keywords [of no_kwargs "[]" 5] by (auto simp add: no_kwargs_def)
  have "creation_counter self0 = 5"
    using DualField_init_counters(2) [OF *] by simp
  with * C9_creation_counter [OF *] show ?thesis by blast
qed

text \<open>
  C9 as stated fails: the hidden encrypted fields of two dual fields, constructed
  one after the other, both have counter \<open>-1\<close>, so the first is not strictly lower
  than the second.
\<close>

theorem C9_two_hidden_fields_counterexample:
  "DualField_init [] no_kwargs 0 =
     Inr (\<lparr>creation_counter = 0, primary_key = False, unique_opt = False, db_index = False,
           null_opt = False, editable = True, attname = None,
           encrypted_field =
             \<lparr>creation_counter = - 1, primary_key = False, unique_opt = False,
              db_index = False, null_opt = False, editable = False, attname = None\<rparr>\<rparr>,
          2) \<and>
   DualField_init [] no_kwargs 2 =
     Inr (\<lparr>creation_counter = 2, primary_key = False, unique_opt = False, db_index = False,
           null_opt = False, editable = True, attname = None,
           encrypted_field =
             \<lparr>creation_counter = - 1, primary_key = False, unique_opt = False,
              db_index = False, null_opt = False, editable = False, attname = None\<rparr>\<rparr>,
          4) \<and>
   \<not> creation_counter
        \<lparr>creation_counter = - 1, primary_key = False, unique_opt = False,
         db_index = False, null_opt = False, editable = False, attname = None\<rparr>
      < creation_counter
        \<lparr>creation_counter = - 1, primary_key = False, unique_opt = False,
         db_index = False, null_opt = False, editable = False, attname = None\<rparr>"
  by (simp add: DualField_init_def EncryptedField_init_def Field_init_def bind_param_def
      truthy_def no_kwargs_def field.defs)

text \<open>
  C2. With a cipher built from the settings: \<open>get_db_prep_save\<close> encrypts under the
  first key of the list. \<open>from_db_value\<close> decodes the message of the first key in
  list order that authenticates the token; it raises \<open>InvalidToken\<close> when no key of
  the list authenticates the token, and, \<^verbatim>\<open>force_text\<close> and \<^verbatim>\<open>to_python\<close>
  raising no \<open>InvalidToken\<close> of their own, only then. Hence the token of a key in
  the list is not refused (and decodes the message it was made from, when no other
  key authenticates it), and the token of a key outside the list is refused, given
  that no other key authenticates a token. The cipher object itself behaves the
  same way.
\<close>

theorem C2_multi_key_cipher:
  assumes "fernet h s = Inr c"
  shows "(super_get_db_prep_save h v = Inr p \<and> p \<noteq> PyNone \<longrightarrow>
            (\<exists>k ks. fernet_keys h s = k # ks \<and>
               EncryptedField_get_db_prep_save h s v r =
                 Inr (Some (fernet_encrypt h k r (force_bytes h p))))) \<and>
         EncryptedField_from_db_value h s (Some tok) =
           (case find (\<lambda>k. fernet_decrypt h k tok \<noteq> None) (fernet_keys h s) of
              None \<Rightarrow> Inl InvalidToken
            | Some k \<Rightarrow>
                (case fernet_decrypt h k tok of
                   None \<Rightarrow> Inl InvalidToken
                 | Some m \<Rightarrow>
                     (case force_text h m of Inl e \<Rightarrow> Inl e | Inr u \<Rightarrow> to_python h u))) \<and>
         ((\<forall>k \<in> set (fernet_keys h s). fernet_decrypt h k tok = None) \<longrightarrow>
            EncryptedField_from_db_value h s (Some tok) = Inl InvalidToken) \<and>
         (decoders_keep_InvalidToken h \<longrightarrow>
            (EncryptedField_from_db_value h s (Some tok) = Inl InvalidToken \<longleftrightarrow>
               (\<forall>k \<in> set (fernet_keys h s). fernet_decrypt h k tok = None))) \<and>
         (fernet_sound h \<and> decoders_keep_InvalidToken h \<and> key \<in> set (fernet_keys h s) \<longrightarrow>
            EncryptedField_from_db_value h s (Some (fernet_encrypt h key r msg)) \<noteq>
              Inl InvalidToken) \<and>
         (fernet_sound h \<and> fernet_authentic h \<and> key \<in> set (fernet_keys h s) \<longrightarrow>
            EncryptedField_from_db_value h s (Some (fernet_encrypt h key r msg)) =
              (case force_text h msg of Inl e \<Rightarrow> Inl e | Inr u \<Rightarrow> to_python h u)) \<and>
         (fernet_authentic h \<and> key \<notin> set (fernet_keys h s) \<longrightarrow>
            EncryptedField_from_db_value h s (Some (fernet_encrypt h key r msg)) =
              Inl InvalidToken) \<and>
         (\<exists>k ks. fernet_keys h s = k # ks \<and>
            encrypt h c r msg = Inr (fernet_encrypt h k r msg)) \<and>
         decrypt h c tok =
           (case find (\<lambda>k. fernet_decrypt h k tok \<noteq> None) (fernet_keys h s) of
              None \<Rightarrow> Inl InvalidToken
            | Some k \<Rightarrow>
                (case fernet_decrypt h k tok of
                   Some m \<Rightarrow> Inr m
                 | None \<Rightarrow> Inl InvalidToken)) \<and>
         (decrypt h c tok = Inl InvalidToken \<longleftrightarrow>
            (\<forall>k \<in> set (fernet_keys h s). fernet_decrypt h k tok = None))"
proof (intro conjI impI)
  note d = decrypt_fernet [OF assms]
  note l = from_db_value_fernet [OF assms]
  show "\<exists>k ks. fernet_keys h s = k # ks \<and>
      EncryptedField_get_db_prep_save h s v r =
        Inr (Some (fernet_encrypt h k r (force_bytes h p)))"
    if "super_get_db_prep_save h v = Inr p \<and> p \<noteq> PyNone"
    using that get_db_prep_save_fernet [OF assms] by blast
  show "EncryptedField_from_db_value h s (Some tok) =
      (case find (\<lambda>k. fernet_decrypt h k tok \<noteq> None) (fernet_keys h s) of
         None \<Rightarrow> Inl InvalidToken
       | Some k \<Rightarrow>
           (case fernet_decrypt h k tok of
              None \<Rightarrow> Inl InvalidToken
            | Some m \<Rightarrow>
                (case force_text h m of Inl e \<Rightarrow> Inl e | Inr u \<Rightarrow> to_python h u)))"
    by (rule from_db_value_find [OF assms])
  show none: "EncryptedField_from_db_value h s (Some tok) = Inl InvalidToken"
    if "\<forall>k \<in> set (fernet_keys h s). fernet_decrypt h k tok = None" for tok
    using that by (rule from_db_value_none_authenticates [OF assms])
  show "EncryptedField_from_db_value h s (Some tok) = Inl InvalidToken \<longleftrightarrow>
      (\<forall>k \<in> set (fernet_keys h s). fernet_decrypt h k tok = None)"
    if "decoders_keep_InvalidToken h"
    using from_db_value_InvalidToken [OF assms that] none by blast
  show "EncryptedField_from_db_value h s (Some (fernet_encrypt h key r msg)) \<noteq> Inl InvalidToken"
    if a: "fernet_sound h \<and> decoders_keep_InvalidToken h \<and> key \<in> set (fernet_keys h s)"
  proof
    assume "EncryptedField_from_db_value h s (Some (fernet_encrypt h key r msg)) = Inl InvalidToken"
    with a have "fernet_decrypt h key (fernet_encrypt h key r msg) = None"
      using from_db_value_InvalidToken [OF assms] by blast
    with a show False by (simp add: fernet_sound_def)
  qed
  show "EncryptedField_from_db_value h s (Some (fernet_encrypt h key r msg)) =
      (case force_text h msg of Inl e \<Rightarrow> Inl e | Inr u \<Rightarrow> to_python h u)"
    if "fernet_sound h \<and> fernet_authentic h \<and> key \<in> set (fernet_keys h s)"
    unfolding l using that by (simp add: MultiFernet_decrypt_exact)
  show "EncryptedField_from_db_value h s (Some (fernet_encrypt h key r msg)) = Inl InvalidToken"
    if "fernet_authentic h \<and> key \<notin> set (fernet_keys h s)"
    unfolding l using that by (simp add: MultiFernet_decrypt_absent)
  show "\<exists>k ks. fernet_keys h s = k # ks \<and> encrypt h c r msg = Inr (fernet_encrypt h k r msg)"
    by (rule encrypt_fernet [OF assms])
  show "decrypt h c tok =
           (case find (\<lambda>k. fernet_decrypt h k tok \<noteq> None) (fernet_keys h s) of
              None \<Rightarrow> Inl InvalidToken
            | Some k \<Rightarrow>
                (case fernet_decrypt h k tok of
                   Some m \<Rightarrow> Inr m
                 | None \<Rightarrow> Inl InvalidToken))"
    unfolding d by (rule MultiFernet_decrypt_find)
  show "decrypt h c tok = Inl InvalidToken \<longleftrightarrow>
          (\<forall>k \<in> set (fernet_keys h s). fernet_decrypt h k tok = None)"
    unfolding d by (rule MultiFernet_decrypt_InvalidToken)
qed

theorem C2_multi_key_cipher_witness:
  "fernet sample_host (sample_settings (Some [9, 8]) (Some False)) = Inr (MultiFernet [9, 8]) \<and>
   fernet_keys sample_host (sample_settings (Some [9, 8]) (Some False)) = [9, 8] \<and>
   fernet_sound sample_host \<and> fernet_authentic sample_host \<and>
   decoders_keep_InvalidToken sample_host \<and>
   super_get_db_prep_save sample_host (Obj [1, 2]) = Inr (Obj [1, 2]) \<and>
   EncryptedField_get_db_prep_save sample_host (sample_settings (Some [9, 8]) (Some False))
     (Obj [1, 2]) 3 = Inr (Some [9, 3, 1, 2]) \<and>
   EncryptedField_from_db_value sample_host (sample_settings (Some [9, 8]) (Some False))
     (Some [8, 3, 1, 2]) = Inr (Obj [1, 2]) \<and>
   EncryptedField_from_db_value sample_host (sample_settings (Some [9, 8]) (Some False))
     (Some [5, 3, 1, 2]) = Inl InvalidToken \<and>
   encrypt sample_host (MultiFernet [9, 8]) 3 [1, 2] = Inr [9, 3, 1, 2] \<and>
   decrypt sample_host (MultiFernet [9, 8]) [8, 3, 1, 2] = Inr [1, 2] \<and>
   decrypt sample_host (MultiFernet [9, 8]) [5, 3, 1, 2] = Inl InvalidToken"
proof -
  let ?s = "sample_settings (Some [9, 8]) (Some False)"
  have ks: "fernet_keys sample_host ?s = [9, 8]"
    by (simp add: fernet_keys_def keys_def use_hkdf_def sample_settings_def)
  have f: "fernet sample_host ?s = Inr (MultiFernet [9, 8])"
    by (simp add: fernet_cases ks sample_host_fields)
  have e: "fernet_encrypt sample_host k 3 [1, 2] = [k, 3, 1, 2]" for k
    by (simp add: sample_host_def)
  have d: "fernet_decrypt sample_host k (k' # x # m) = (if k' = k then Some m else None)"
    for k k' x m
    by (simp add: sample_host_def)
  have t: "force_text sample_host b = Inr (Obj b)" "to_python sample_host v = Inr v" for b v
    by (simp_all add: sample_host_def)
  from C2_multi_key_cipher [OF f, of "Obj [1, 2]" "Obj [1, 2]" 3 "[8, 3, 1, 2]" 8 "[1, 2]"]
    C2_multi_key_cipher [OF f, of "Obj [1, 2]" "Obj [1, 2]" 3 "[5, 3, 1, 2]" 5 "[1, 2]"]
    ks f e d t sample_host_sound sample_host_authentic sample_host_decoders
    sample_host_fields(1,3)
  show ?thesis by simp
qed

text \<open>
  C3. For a value the mixed-in field class supports, with a non-empty key list
  whose keys \<^verbatim>\<open>Fernet(key)\<close> accepts and a cipher that decrypts its own tokens,
  what \<open>get_db_prep_save\<close> returns is read back by \<open>from_db_value\<close> as the value,
  whatever timestamp and IV the encryption drew; the cell is NULL exactly for
  \<^verbatim>\<open>None\<close>. A \<^verbatim>\<open>None\<close> that the field class prepares as \<^verbatim>\<open>None\<close> is stored as
  NULL, and a NULL cell is loaded as \<^verbatim>\<open>None\<close>.
\<close>

theorem C3_round_trip:
  "(fernet_sound h \<and> FERNET_KEYS s \<noteq> Some [] \<and>
    (\<forall>k \<in> set (fernet_keys h s). valid_fernet_key h k) \<and> supported h v \<longrightarrow>
      (\<exists>cell. EncryptedField_get_db_prep_save h s v r = Inr cell \<and>
         (cell = None \<longleftrightarrow> v = PyNone) \<and>
         EncryptedField_from_db_value h s cell = Inr v)) \<and>
   (super_get_db_prep_save h PyNone = Inr PyNone \<longrightarrow>
      EncryptedField_get_db_prep_save h s PyNone r = Inr None) \<and>
   EncryptedField_from_db_value h s None = Inr PyNone"
  using encrypted_round_trip [of h s v r] get_db_prep_save_None [of h PyNone s r]
    from_db_value_None [of h s]
  by blast

theorem C3_round_trip_witness:
  "fernet_sound sample_host \<and>
   FERNET_KEYS (sample_settings (Some [9, 8]) (Some False)) \<noteq> Some [] \<and>
   fernet_keys sample_host (sample_settings (Some [9, 8]) (Some False)) = [9, 8] \<and>
   valid_fernet_key sample_host 9 \<and> valid_fernet_key sample_host 8 \<and>
   supported sample_host (Obj [1, 2]) \<and>
   EncryptedField_get_db_prep_save sample_host (sample_settings (Some [9, 8]) (Some False))
     (Obj [1, 2]) 3 = Inr (Some [9, 3, 1, 2]) \<and>
   EncryptedField_from_db_value sample_host (sample_settings (Some [9, 8]) (Some False))
     (Some [9, 3, 1, 2]) = Inr (Obj [1, 2]) \<and>
   super_get_db_prep_save sample_host PyNone = Inr PyNone \<and>
   EncryptedField_get_db_prep_save sample_host (sample_settings (Some [9, 8]) (Some False))
     PyNone 3 = Inr None \<and>
   EncryptedField_from_db_value sample_host (sample_settings (Some [9, 8]) (Some False))
     None = Inr PyNone"
proof -
  let ?s = "sample_settings (Some [9, 8]) (Some False)"
  have ne: "FERNET_KEYS ?s \<noteq> Some []" by (simp add: sample_settings_def)
  have sup: "supported sample_host (Obj [1, 2])" by (simp add: sample_host_supported)
  have n: "super_get_db_prep_save sample_host PyNone = Inr PyNone"
    by (simp add: sample_host_def)
  have ks: "fernet_keys sample_host ?s = [9, 8]"
    by (simp add: fernet_keys_def keys_def use_hkdf_def sample_settings_def)
  have f: "fernet sample_host ?s = Inr (MultiFernet [9, 8])"
    by (simp add: fernet_cases ks sample_host_fields)
  have e: "EncryptedField_get_db_prep_save sample_host ?s (Obj [1, 2]) 3 = Inr (Some [9, 3, 1, 2])"
    by (simp add: EncryptedField_get_db_prep_save_def f sample_host_fields)
  from C3_round_trip [of sample_host ?s "Obj [1, 2]" 3] sample_host_sound ne sup n e ks
  show ?thesis by (simp add: sample_host_fields)
qed

text \<open>
  C1. For a dual field attached to a model class: \<open>pre_save\<close> reads the hidden
  encrypted field's attribute of the instance; the hash cell written at a save is
  NULL when that value is \<^verbatim>\<open>None\<close> and otherwise the SHA-256 digest, 32 bytes
  long, of the bytes of the value as the mixed-in field class prepares it (that
  class is asked to prepare without error and to keep \<^verbatim>\<open>None\<close> apart from
  every other value); and after any sequence of assignments to the dual attribute
  the cell depends on the last assigned value only.
\<close>

theorem C1_hash_of_current_value:
  assumes bound: "DualField_contribute_to_class self0 cls0 name = Inr (self, cls)"
    and descr: "descriptors cls name = Some d"
  shows "DualField_pre_save self obj = getattr obj (name @ ''_encrypted'') \<and>
         (getattr obj (name @ ''_encrypted'') = Inr v \<and>
          super_get_db_prep_value h v = Inr p \<and> (p = PyNone \<longleftrightarrow> v = PyNone) \<longrightarrow>
            save_hash_cell h self obj =
              Inr (if v = PyNone then None else Some (sha256_digest h (force_bytes h p)))) \<and>
         (sha256_length h \<and> save_hash_cell h self obj = Inr (Some digest) \<longrightarrow>
            length digest = 32) \<and>
         (v \<noteq> NO_VALUE \<and>
          super_get_db_prep_value h v = Inr p \<and> (p = PyNone \<longleftrightarrow> v = PyNone) \<longrightarrow>
            save_hash_cell h self (foldl (descriptor_set d) obj (vs @ [v])) =
              Inr (if v = PyNone then None else Some (sha256_digest h (force_bytes h p))))"
proof (intro conjI impI)
  note pre = pre_save_bound [OF bound]
  note att = bound_descriptor [OF bound descr]
  show "DualField_pre_save self obj = getattr obj (name @ ''_encrypted'')"
    by (rule pre)
  have save: "save_hash_cell h self o' =
      Inr (if v = PyNone then None else Some (sha256_digest h (force_bytes h p)))"
    if "getattr o' (name @ ''_encrypted'') = Inr v"
      and "super_get_db_prep_value h v = Inr p" and "p = PyNone \<longleftrightarrow> v = PyNone" for o'
    using that by (simp add: save_hash_cell_def pre get_db_prep_value_cases)
  show "save_hash_cell h self obj =
      Inr (if v = PyNone then None else Some (sha256_digest h (force_bytes h p)))"
    if "getattr obj (name @ ''_encrypted'') = Inr v \<and>
        super_get_db_prep_value h v = Inr p \<and> (p = PyNone \<longleftrightarrow> v = PyNone)"
    using that save by blast
  show "length digest = 32"
    if "sha256_length h \<and> save_hash_cell h self obj = Inr (Some digest)"
    using that save_hash_cell_length by blast
  show "save_hash_cell h self (foldl (descriptor_set d) obj (vs @ [v])) =
      Inr (if v = PyNone then None else Some (sha256_digest h (force_bytes h p)))"
    if "v \<noteq> NO_VALUE \<and> super_get_db_prep_value h v = Inr p \<and> (p = PyNone \<longleftrightarrow> v = PyNone)"
  proof -
    from that have "getattr (foldl (descriptor_set d) obj (vs @ [v])) (name @ ''_encrypted'') = Inr v"
      using descriptor_set_last [of v d obj vs] att by simp
    with that show ?thesis using save by blast
  qed
qed

theorem C1_hash_of_current_value_witness:
  "\<exists>self0 self cls d.
     DualField_init [] no_kwargs 0 = Inr (self0, 2) \<and>
     DualField_contribute_to_class self0 empty_class ''email'' = Inr (self, cls) \<and>
     descriptors cls ''email'' = Some d \<and>
     sha256_length sample_host \<and>
     DualField_pre_save self
       (foldl (descriptor_set d) Map.empty [Obj [1], PyNone, Obj [3 :: 8 word]]) =
       Inr (Obj [3]) \<and>
     save_hash_cell sample_host self
       (foldl (descriptor_set d) Map.empty [Obj [1], PyNone, Obj [3]]) =
       Inr (Some (3 # replicate 31 0)) \<and>
     save_hash_cell sample_host self
       (foldl (descriptor_set d) Map.empty [Obj [1], Obj [3], PyNone]) = Inr None"
proof -
  obtain self0 where i: "DualField_init [] no_kwargs 0 = Inr (self0, 2)"
    using DualField_init_keywords [of no_kwargs "[]" 0] by (auto simp add: no_kwargs_def)
  obtain self cls where b: "DualField_contribute_to_class self0 empty_class ''email'' = Inr (self, cls)"
    using contribute_to_class_total by blast
  define d where "d = \<lparr>encrypted_field_attname = ''email_encrypted''\<rparr>"
  have dd: "descriptors cls ''email'' = Some d"
    using contribute_to_class_bound(2) [OF b] by (simp add: d_def)
  let ?o1 = "foldl (descriptor_set d) Map.empty ([Obj [1], PyNone] @ [Obj [3 :: 8 word]])"
  let ?o2 = "foldl (descriptor_set d) Map.empty ([Obj [1], Obj [3 :: 8 word]] @ [PyNone])"
  have g1: "getattr ?o1 (''email'' @ ''_encrypted'') = Inr (Obj [3])"
    using descriptor_set_last [of "Obj [3 :: 8 word]" d Map.empty "[Obj [1], PyNone]"]
    by (simp add: d_def)
  from C1_hash_of_current_value [OF b dd, of ?o1 "Obj [3]" sample_host "Obj [3]" "[]" "[]"]
    C1_hash_of_current_value [OF b dd, of Map.empty "Obj [3]" sample_host "Obj [3]" "[]"
      "[Obj [1], PyNone]"]
    C1_hash_of_current_value [OF b dd, of Map.empty PyNone sample_host PyNone "[]"
      "[Obj [1], Obj [3]]"]
    g1
  have "DualField_pre_save self ?o1 = Inr (Obj [3])"
    and "save_hash_cell sample_host self ?o1 = Inr (Some (3 # replicate 31 0))"
    and "save_hash_cell sample_host self ?o2 = Inr None"
    by (simp_all add: sample_host_fields)
  with i b dd sample_host_sha256 show ?thesis by auto
qed

text \<open>
  C4. For a dual field attached to a model class: loading the hash cell yields
  \<open>NO_VALUE\<close>, whatever the cell holds; writing \<open>NO_VALUE\<close> to the dual attribute
  leaves the instance unchanged; writing any other value sets the hidden encrypted
  attribute, and reading the dual attribute returns the hidden attribute's value.
  So after a load the dual attribute reads as the value decrypted from the encrypted
  cell, and the loaded instance does not depend on the hash cell.
\<close>

theorem C4_hash_never_loaded:
  assumes bound: "DualField_contribute_to_class self0 cls0 name = Inr (self, cls)"
    and descr: "descriptors cls name = Some d"
  shows "DualField_from_db_value hash_cell = NO_VALUE \<and>
         descriptor_set d obj NO_VALUE = obj \<and>
         (v \<noteq> NO_VALUE \<longrightarrow>
            descriptor_set d obj v = setattr obj (name @ ''_encrypted'') v \<and>
            descriptor_get d (descriptor_set d obj v) = Inr v) \<and>
         descriptor_get d obj = getattr obj (name @ ''_encrypted'') \<and>
         (EncryptedField_from_db_value h s encrypted_cell = Inr w \<longrightarrow>
            (\<exists>obj'. load_dual h s self d obj encrypted_cell hash_cell = Inr obj' \<and>
               descriptor_get d obj' = Inr w)) \<and>
         load_dual h s self d obj encrypted_cell hash_cell =
           load_dual h s self d obj encrypted_cell hash_cell'"
proof (intro conjI impI)
  note att = bound_descriptor [OF bound descr]
  show "DualField_from_db_value hash_cell = NO_VALUE"
    by (simp add: DualField_from_db_value_def)
  show "descriptor_set d obj NO_VALUE = obj"
    by (simp add: descriptor_set_def)
  show "descriptor_set d obj v = setattr obj (name @ ''_encrypted'') v" if "v \<noteq> NO_VALUE"
    using that by (simp add: descriptor_set_def att)
  show "descriptor_get d (descriptor_set d obj v) = Inr v" if "v \<noteq> NO_VALUE"
    using that by (simp add: descriptor_set_def descriptor_get_def getattr_setattr)
  show "descriptor_get d obj = getattr obj (name @ ''_encrypted'')"
    by (simp add: descriptor_get_def att)
  show "\<exists>obj'. load_dual h s self d obj encrypted_cell hash_cell = Inr obj' \<and>
      descriptor_get d obj' = Inr w"
    if "EncryptedField_from_db_value h s encrypted_cell = Inr w"
    using load_dual_bound [OF bound descr that]
    by (simp add: descriptor_get_def att getattr_setattr)
  show "load_dual h s self d obj encrypted_cell hash_cell =
      load_dual h s self d obj encrypted_cell hash_cell'"
    by (simp add: load_dual_def DualField_from_db_value_def split: sum.splits option.splits)
qed

theorem C4_hash_never_loaded_witness:
  "\<exists>self0 self cls d.
     DualField_init [] no_kwargs 0 = Inr (self0, 2) \<and>
     DualField_contribute_to_class self0 empty_class ''email'' = Inr (self, cls) \<and>
     descriptors cls ''email'' = Some d \<and>
     EncryptedField_from_db_value sample_host (sample_settings (Some [9, 8]) (Some False))
       (Some [8, 3, 1, 2]) = Inr (Obj [1, 2]) \<and>
     (\<exists>obj'. load_dual sample_host (sample_settings (Some [9, 8]) (Some False)) self d
                Map.empty (Some [8, 3, 1, 2]) (Some (replicate 32 5)) = Inr obj' \<and>
        descriptor_get d obj' = Inr (Obj [1, 2])) \<and>
     descriptor_get d (descriptor_set d Map.empty (Obj [4 :: 8 word])) = Inr (Obj [4]) \<and>
     descriptor_set d [''email_encrypted'' \<mapsto> Obj [4 :: 8 word]] NO_VALUE =
       [''email_encrypted'' \<mapsto> Obj [4]]"
proof -
  let ?s = "sample_settings (Some [9, 8]) (Some False)"
  obtain self0 where i: "DualField_init [] no_kwargs 0 = Inr (self0, 2)"
    using DualField_init_keywords [of no_kwargs "[]" 0] by (auto simp add: no_kwargs_def)
  obtain self cls where b: "DualField_contribute_to_class self0 empty_class ''email'' = Inr (self, cls)"
    using contribute_to_class_total by blast
  define d where "d = \<lparr>encrypted_field_attname = ''email_encrypted''\<rparr>"
  have dd: "descriptors cls ''email'' = Some d"
    using contribute_to_class_bound(2) [OF b] by (simp add: d_def)
  have ks: "fernet_keys sample_host ?s = [9, 8]"
    by (simp add: fernet_keys_def keys_def use_hkdf_def sample_settings_def)
  have f: "fernet sample_host ?s = Inr (MultiFernet [9, 8])"
    by (simp add: fernet_cases ks sample_host_fields)
  have l: "EncryptedField_from_db_value sample_host ?s (Some [8, 3, 1, 2]) = Inr (Obj [1, 2])"
    by (simp add: EncryptedField_from_db_value_def f) (simp add: sample_host_def)
  from C4_hash_never_loaded [OF b dd, of "Some (replicate 32 5)" Map.empty "Obj [4 :: 8 word]"
      sample_host ?s "Some [8, 3, 1, 2]" "Obj [1, 2]" None]
    l
  have "\<exists>obj'. load_dual sample_host ?s self d Map.empty (Some [8, 3, 1, 2])
            (Some (replicate 32 5)) = Inr obj' \<and> descriptor_get d obj' = Inr (Obj [1, 2])"
    and "descriptor_get d (descriptor_set d Map.empty (Obj [4 :: 8 word])) = Inr (Obj [4])"
    by blast+
  moreover
  from C4_hash_never_loaded [OF b dd, of None "[''email_encrypted'' \<mapsto> Obj [4 :: 8 word]]"
      "Obj [4]" sample_host ?s None PyNone None]
  have "descriptor_set d [''email_encrypted'' \<mapsto> Obj [4 :: 8 word]] NO_VALUE =
      [''email_encrypted'' \<mapsto> Obj [4]]"
    by blast
  ultimately show ?thesis using i b dd l by blast
qed

end
